theory Spec2Isabelle
  imports Complex_Main "HOL-Library.Word"
begin

section \<open>Strings and JSON values of the runtime\<close>

text \<open>
  A JavaScript string is a sequence of UTF-16 code units. Literals of the source are
  written with \<open>ustr\<close>, which maps each character to the code unit of the same number.
\<close>

type_synonym code_unit = "16 word"
type_synonym jstring = "code_unit list"

definition cu :: "char \<Rightarrow> code_unit" where
  "cu c = of_char c"

definition ustr :: "string \<Rightarrow> jstring" where
  "ustr s = map cu s"

text \<open>
  The values \<open>JSON.parse\<close> and \<open>express.json()\<close> produce. A number carries the exact
  rational its literal denotes; the runtime stores the nearest double. An object is the
  list of its own properties in insertion order, every key once (the runtime enumerates
  keys that are array indices first; that order is not modelled).
\<close>

datatype json =
    JNull
  | JBool bool
  | JNum rat
  | JStr jstring
  | JArr "json list"
  | JObj "(jstring \<times> json) list"

text \<open>
  A decimal literal is stored as the double \<open>0\<close> exactly when its magnitude is at most
  half the least subnormal \<open>2 ^ -1074\<close> (round to nearest, ties to even).
\<close>

definition rounds_to_zero :: "rat \<Rightarrow> bool" where
  "rounds_to_zero q = (\<bar>q\<bar> \<le> 1 / 2 ^ 1075)"

text \<open>\<open>ToBoolean\<close>: what \<open>if (v)\<close> and \<open>!v\<close> test.\<close>

fun truthy :: "json \<Rightarrow> bool" where
  "truthy JNull = False"
| "truthy (JBool b) = b"
| "truthy (JNum q) = (\<not> rounds_to_zero q)"
| "truthy (JStr s) = (s \<noteq> [])"
| "truthy (JArr xs) = True"
| "truthy (JObj ps) = True"

section \<open>\<open>JSON.parse\<close>\<close>

text \<open>
  The grammar of ECMA-404 as \<open>JSON.parse\<close> reads it: white space is space, tab, line
  feed and carriage return; a string holds any code unit from \<open>0x20\<close> on except the
  quotation mark and the backslash, or an escape; a number has no leading zero and no
  leading plus sign. A failed parse is \<open>None\<close> (the runtime throws a SyntaxError).
\<close>

definition is_ws :: "code_unit \<Rightarrow> bool" where
  "is_ws c = (c = 0x20 \<or> c = 0x09 \<or> c = 0x0A \<or> c = 0x0D)"

definition skip_ws :: "jstring \<Rightarrow> jstring" where
  "skip_ws cs = dropWhile is_ws cs"

definition is_digit :: "code_unit \<Rightarrow> bool" where
  "is_digit c = (0x30 \<le> c \<and> c \<le> 0x39)"

definition digit_val :: "code_unit \<Rightarrow> nat" where
  "digit_val c = unat c - 0x30"

definition digits_val :: "jstring \<Rightarrow> nat" where
  "digits_val ds = foldl (\<lambda>n d. 10 * n + digit_val d) 0 ds"

definition hex_val :: "code_unit \<Rightarrow> nat option" where
  "hex_val c =
     (if 0x30 \<le> c \<and> c \<le> 0x39 then Some (unat c - 0x30)
      else if 0x41 \<le> c \<and> c \<le> 0x46 then Some (unat c - 0x41 + 10)
      else if 0x61 \<le> c \<and> c \<le> 0x66 then Some (unat c - 0x61 + 10)
      else None)"

definition hex4 :: "code_unit \<Rightarrow> code_unit \<Rightarrow> code_unit \<Rightarrow> code_unit \<Rightarrow> code_unit option" where
  "hex4 a b c d =
     (case (hex_val a, hex_val b, hex_val c, hex_val d) of
        (Some x, Some y, Some z, Some t) \<Rightarrow> Some (of_nat (((x * 16 + y) * 16 + z) * 16 + t))
      | _ \<Rightarrow> None)"

definition simple_escape :: "code_unit \<Rightarrow> code_unit option" where
  "simple_escape e =
     (if e = cu (CHR 0x22) then Some (cu (CHR 0x22))
      else if e = cu (CHR 0x5C) then Some (cu (CHR 0x5C))
      else if e = cu CHR ''/'' then Some (cu CHR ''/'')
      else if e = cu CHR ''b'' then Some 0x08
      else if e = cu CHR ''f'' then Some 0x0C
      else if e = cu CHR ''n'' then Some 0x0A
      else if e = cu CHR ''r'' then Some 0x0D
      else if e = cu CHR ''t'' then Some 0x09
      else None)"

text \<open>The characters of a string after its opening quotation mark, up to the closing one.\<close>

fun parse_chars :: "jstring \<Rightarrow> jstring \<Rightarrow> (jstring \<times> jstring) option" where
  "parse_chars acc [] = None"
| "parse_chars acc (c # cs) =
     (if c = cu (CHR 0x22) then Some (acc, cs)
      else if c = cu (CHR 0x5C) then
        (case cs of
           [] \<Rightarrow> None
         | e # r \<Rightarrow>
             if e = cu CHR ''u'' then
               (case r of
                  a # b # c' # d # r' \<Rightarrow>
                    (case hex4 a b c' d of
                       None \<Rightarrow> None
                     | Some u \<Rightarrow> parse_chars (acc @ [u]) r')
                | _ \<Rightarrow> None)
             else
               (case simple_escape e of
                  None \<Rightarrow> None
                | Some x \<Rightarrow> parse_chars (acc @ [x]) r))
      else if c < 0x20 then None
      else parse_chars (acc @ [c]) cs)"

text \<open>
  A number: optional minus, integer part (\<open>0\<close>, or a non-zero digit and more digits),
  optional fraction, optional exponent.
\<close>

definition parse_exponent :: "jstring \<Rightarrow> (int \<times> jstring) option" where
  "parse_exponent cs =
     (case cs of
        [] \<Rightarrow> Some (0, cs)
      | e # r \<Rightarrow>
          if e = cu CHR ''e'' \<or> e = cu CHR ''E'' then
            (let (neg, r1) =
               (case r of
                  [] \<Rightarrow> (False, r)
                | s # r' \<Rightarrow>
                    if s = cu CHR ''-'' then (True, r')
                    else if s = cu CHR ''+'' then (False, r')
                    else (False, r));
                 ds = takeWhile is_digit r1
             in if ds = [] then None
                else Some ((if neg then - int (digits_val ds) else int (digits_val ds)),
                           dropWhile is_digit r1))
          else Some (0, cs))"

definition parse_fraction :: "jstring \<Rightarrow> (rat \<times> jstring) option" where
  "parse_fraction cs =
     (case cs of
        [] \<Rightarrow> Some (0, cs)
      | p # r \<Rightarrow>
          if p = cu CHR ''.'' then
            (let ds = takeWhile is_digit r
             in if ds = [] then None
                else Some (of_nat (digits_val ds) / 10 ^ length ds, dropWhile is_digit r))
          else Some (0, cs))"

definition parse_int_part :: "jstring \<Rightarrow> (nat \<times> jstring) option" where
  "parse_int_part cs =
     (case cs of
        [] \<Rightarrow> None
      | d # r \<Rightarrow>
          if d = cu CHR ''0'' then Some (0, r)
          else if is_digit d then
            Some (digits_val (d # takeWhile is_digit r), dropWhile is_digit r)
          else None)"

definition scale10 :: "int \<Rightarrow> rat \<Rightarrow> rat" where
  "scale10 e q = (if 0 \<le> e then q * 10 ^ nat e else q / 10 ^ nat (- e))"

definition parse_number :: "jstring \<Rightarrow> (json \<times> jstring) option" where
  "parse_number cs =
     (let (neg, cs1) =
        (case cs of
           [] \<Rightarrow> (False, cs)
         | m # r \<Rightarrow> if m = cu CHR ''-'' then (True, r) else (False, cs))
      in case parse_int_part cs1 of
           None \<Rightarrow> None
         | Some (n, cs2) \<Rightarrow>
             (case parse_fraction cs2 of
                None \<Rightarrow> None
              | Some (f, cs3) \<Rightarrow>
                  (case parse_exponent cs3 of
                     None \<Rightarrow> None
                   | Some (e, cs4) \<Rightarrow>
                       Some (JNum (scale10 e ((if neg then - 1 else 1) * (of_nat n + f))), cs4))))"

definition parse_literal :: "jstring \<Rightarrow> (json \<times> jstring) option" where
  "parse_literal cs =
     (if take 4 cs = ustr ''true'' then Some (JBool True, drop 4 cs)
      else if take 5 cs = ustr ''false'' then Some (JBool False, drop 5 cs)
      else if take 4 cs = ustr ''null'' then Some (JNull, drop 4 cs)
      else parse_number cs)"

text \<open>
  A repeated key keeps its first position and takes the last value, as the runtime's
  property definition does.
\<close>

fun put :: "jstring \<Rightarrow> json \<Rightarrow> (jstring \<times> json) list \<Rightarrow> (jstring \<times> json) list" where
  "put k v [] = [(k, v)]"
| "put k v (p # ps) = (if fst p = k then (k, v) # ps else p # put k v ps)"

lemma length_skip_ws: "length (skip_ws cs) \<le> length cs"
  by (simp add: skip_ws_def length_dropWhile_le)

lemma skip_ws_Cons_shorter: "skip_ws cs = d # r \<Longrightarrow> length r < length cs"
  using length_skip_ws [of cs] by simp

lemma parse_chars_shorter: "parse_chars acc cs = Some (s, r) \<Longrightarrow> length r < length cs"
proof (induction acc cs rule: parse_chars.induct)
  case (1 acc)
  then show ?case by simp
next
  case (2 acc c cs)
  show ?case
  proof (cases "c = cu (CHR 0x22)")
    case True
    with "2.prems" show ?thesis by simp
  next
    case nq: False
    show ?thesis
    proof (cases "c = cu (CHR 0x5C)")
      case bs: True
      show ?thesis
      proof (cases cs)
        case Nil
        with "2.prems" nq bs show ?thesis by simp
      next
        case (Cons e r0)
        show ?thesis
        proof (cases "e = cu CHR ''u''")
          case u: True
          from "2.prems" nq bs Cons u obtain a b c' d r' w where
            r0: "r0 = a # b # c' # d # r'" and h: "hex4 a b c' d = Some w"
            and p: "parse_chars (acc @ [w]) r' = Some (s, r)"
            by (simp split: list.splits option.splits)
          from "2.IH"(1) nq bs Cons u r0 h p show ?thesis
            by force
        next
          case nu: False
          from "2.prems" nq bs Cons nu obtain x where
            x: "simple_escape e = Some x" and p: "parse_chars (acc @ [x]) r0 = Some (s, r)"
            by (simp split: option.splits)
          from "2.IH"(2) nq bs Cons nu x p show ?thesis
            by force
        qed
      qed
    next
      case nb: False
      with "2.prems" nq have c20: "\<not> c < 0x20" and p: "parse_chars (acc @ [c]) cs = Some (s, r)"
        by (simp_all split: if_splits)
      from "2.IH"(3) nq nb c20 p show ?thesis by force
    qed
  qed
qed

text \<open>
  Recursive descent. \<open>parse_value\<close> reads one value at the head of the text and returns
  it with the rest; \<open>parse_elements\<close> and \<open>parse_members\<close> read what follows an
  opening bracket or brace that is not closed at once. The comparisons of lengths
  before the next element hold always (\<open>parse_value_shorter\<close> below); they are what the
  termination proof reads.
\<close>

function parse_value :: "jstring \<Rightarrow> (json \<times> jstring) option"
  and parse_elements :: "json list \<Rightarrow> jstring \<Rightarrow> (json list \<times> jstring) option"
  and parse_members ::
    "(jstring \<times> json) list \<Rightarrow> jstring \<Rightarrow> ((jstring \<times> json) list \<times> jstring) option"
where
  "parse_value cs =
     (case cs of
        [] \<Rightarrow> None
      | c # r \<Rightarrow>
          if c = cu CHR ''{'' then
            (case skip_ws r of
               [] \<Rightarrow> None
             | d # r' \<Rightarrow>
                 if d = cu CHR ''}'' then Some (JObj [], r')
                 else (case parse_members [] (skip_ws r) of
                         None \<Rightarrow> None
                       | Some (ms, rest) \<Rightarrow> Some (JObj ms, rest)))
          else if c = cu CHR ''['' then
            (case skip_ws r of
               [] \<Rightarrow> None
             | d # r' \<Rightarrow>
                 if d = cu CHR '']'' then Some (JArr [], r')
                 else (case parse_elements [] (skip_ws r) of
                         None \<Rightarrow> None
                       | Some (vs, rest) \<Rightarrow> Some (JArr vs, rest)))
          else if c = cu (CHR 0x22) then
            (case parse_chars [] r of
               None \<Rightarrow> None
             | Some (s, rest) \<Rightarrow> Some (JStr s, rest))
          else parse_literal cs)"
| "parse_elements acc cs =
     (case parse_value cs of
        None \<Rightarrow> None
      | Some (v, rest) \<Rightarrow>
          (case skip_ws rest of
             [] \<Rightarrow> None
           | d # r \<Rightarrow>
               if d = cu CHR '','' then
                 (if length r < length cs then parse_elements (acc @ [v]) (skip_ws r)
                  else None)
               else if d = cu CHR '']'' then Some (acc @ [v], r)
               else None))"
| "parse_members acc cs =
     (case cs of
        [] \<Rightarrow> None
      | q # r0 \<Rightarrow>
          if q \<noteq> cu (CHR 0x22) then None
          else
            (case parse_chars [] r0 of
               None \<Rightarrow> None
             | Some (k, r1) \<Rightarrow>
                 (case skip_ws r1 of
                    [] \<Rightarrow> None
                  | col # r2 \<Rightarrow>
                      if col \<noteq> cu CHR '':'' then None
                      else
                        (case parse_value (skip_ws r2) of
                           None \<Rightarrow> None
                         | Some (v, rest) \<Rightarrow>
                             (case skip_ws rest of
                                [] \<Rightarrow> None
                              | d # r \<Rightarrow>
                                  if d = cu CHR '','' then
                                    (if length r < length cs
                                     then parse_members (put k v acc) (skip_ws r)
                                     else None)
                                  else if d = cu CHR ''}'' then Some (put k v acc, r)
                                  else None)))))"
  by pat_completeness auto

termination
proof (relation "measure (\<lambda>x. case x of
          Inl cs \<Rightarrow> 2 * length cs
        | Inr (Inl (acc, cs)) \<Rightarrow> 2 * length cs + 1
        | Inr (Inr (acc, cs)) \<Rightarrow> 2 * length cs + 1)")
  show "wf (measure (\<lambda>x. case x of
          Inl cs \<Rightarrow> 2 * length cs
        | Inr (Inl (acc, cs)) \<Rightarrow> 2 * length cs + 1
        | Inr (Inr (acc, cs)) \<Rightarrow> 2 * length (cs :: jstring) + 1))"
    by simp
qed (auto dest!: parse_chars_shorter skip_ws_Cons_shorter
      intro!: le_less_trans [OF mult_le_mono2 [OF length_skip_ws]]
        le_less_trans [OF length_skip_ws])

declare parse_value.simps [simp del] parse_elements.simps [simp del]
  parse_members.simps [simp del]

text \<open>\<open>JSON.parse(text)\<close>: one value, white space around it, and nothing else.\<close>

definition JSON_parse :: "jstring \<Rightarrow> json option" where
  "JSON_parse text =
     (case parse_value (skip_ws text) of
        None \<Rightarrow> None
      | Some (v, rest) \<Rightarrow> if skip_ws rest = [] then Some v else None)"

section \<open>String operations of the runtime\<close>

text \<open>
  \<open>indexOf\<close> and \<open>lastIndexOf\<close> with a one-unit search string: the index of the first
  and of the last occurrence, \<open>-1\<close> when there is none.
\<close>

fun indexOf :: "jstring \<Rightarrow> code_unit \<Rightarrow> int" where
  "indexOf [] c = - 1"
| "indexOf (x # xs) c =
     (if x = c then 0 else (let i = indexOf xs c in if i < 0 then - 1 else i + 1))"

fun lastIndexOf :: "jstring \<Rightarrow> code_unit \<Rightarrow> int" where
  "lastIndexOf [] c = - 1"
| "lastIndexOf (x # xs) c =
     (let i = lastIndexOf xs c
      in if 0 \<le> i then i + 1 else if x = c then 0 else - 1)"

text \<open>
  \<open>substring(start, end)\<close>: both indices are clamped to the string, the smaller one is
  the start, the unit at the end index is left out.
\<close>

definition substring :: "jstring \<Rightarrow> int \<Rightarrow> int \<Rightarrow> jstring" where
  "substring s start end' =
     (let n = int (length s);
          a = min (max start 0) n;
          b = min (max end' 0) n;
          lo = min a b;
          hi = max a b
      in take (nat (hi - lo)) (drop (nat lo) s))"

text \<open>
  \<open>ToString\<close>, as a template literal applies it to a value that came out of a JSON
  body. \<open>None\<close> is the TypeError of \<open>OrdinaryToPrimitive\<close>: an object with an own
  property \<open>toString\<close> has a \<open>toString\<close> that is not callable (no JSON value is), and
  the inherited \<open>valueOf\<close> returns the object itself. Without that property the
  inherited \<open>toString\<close> answers \<open>[object Object]\<close>. An array joins the strings of its
  elements with commas, \<open>null\<close> elements as empty strings. The digits of a number are
  the runtime's \<open>Number::toString\<close>, a parameter here.
\<close>

fun ToString :: "(rat \<Rightarrow> jstring) \<Rightarrow> json \<Rightarrow> jstring option"
  and join_elements :: "(rat \<Rightarrow> jstring) \<Rightarrow> json list \<Rightarrow> jstring option"
  and element_string :: "(rat \<Rightarrow> jstring) \<Rightarrow> json \<Rightarrow> jstring option"
where
  "ToString numstr JNull = Some (ustr ''null'')"
| "ToString numstr (JBool b) = Some (if b then ustr ''true'' else ustr ''false'')"
| "ToString numstr (JNum q) = Some (numstr q)"
| "ToString numstr (JStr s) = Some s"
| "ToString numstr (JArr xs) = join_elements numstr xs"
| "ToString numstr (JObj ps) =
     (if ustr ''toString'' \<in> set (map fst ps) then None
      else Some (ustr ''[object Object]''))"
| "join_elements numstr [] = Some []"
| "join_elements numstr [x] = element_string numstr x"
| "join_elements numstr (x # y # ys) =
     (case element_string numstr x of
        None \<Rightarrow> None
      | Some s \<Rightarrow>
          (case join_elements numstr (y # ys) of
             None \<Rightarrow> None
           | Some t \<Rightarrow> Some (s @ ustr '','' @ t)))"
| "element_string numstr JNull = Some []"
| "element_string numstr (JBool b) = ToString numstr (JBool b)"
| "element_string numstr (JNum q) = ToString numstr (JNum q)"
| "element_string numstr (JStr s) = ToString numstr (JStr s)"
| "element_string numstr (JArr xs) = ToString numstr (JArr xs)"
| "element_string numstr (JObj ps) = ToString numstr (JObj ps)"

section \<open>The completion API and the world around the handler\<close>

record message =
  role :: jstring
  content :: jstring

record chat_request =
  model :: jstring
  messages :: "message list"
  max_tokens :: nat
  temperature :: rat
  response_format :: jstring

text \<open>
  What \<open>await openai.chat.completions.create(...)\<close> does: it throws (the promise
  rejects), or it resolves with a response, of which the code reads
  \<open>response.choices?.[0]?.message?.content\<close>: a string, or nothing (\<open>None\<close>) when a
  link of the chain is missing or the content is \<open>null\<close>.
\<close>

datatype api_outcome = Rejects | Resolves "jstring option"

text \<open>
  The API is a function of its own state and the request; a deterministic stub answers
  from the request alone.
\<close>

type_synonym 'st completion_api = "'st \<Rightarrow> chat_request \<Rightarrow> api_outcome \<times> 'st"

definition deterministic_stub :: "'st completion_api \<Rightarrow> bool" where
  "deterministic_stub api = (\<forall>s s' request. fst (api s request) = fst (api s' request))"

datatype js_error = TypeError | SyntaxError | EmptyResponse | ApiError

text \<open>
  The state a request runs in: the state of the API, and three logs that only record:
  the requests sent to the API, the quotes \<open>analyzeQuote\<close> was called with, and the
  errors written with \<open>console.error\<close>.
\<close>

record 'st world =
  api_state :: 'st
  api_calls :: "chat_request list"
  analyzed :: "json list"
  console :: "js_error list"

section \<open>\<open>analyzeQuote\<close>\<close>

definition system_content :: jstring where
  \<open>system_content = ustr ''You are an assistant that analyzes famous quotes. For each quote you will produce a JSON object with the following keys: "sentiment", "intensity", "complexity", "agency" (all numbers between 0 and 1), and "themes" (an array of exactly three concise one-word themes). Output only valid JSON. Do not include any explanatory text.''\<close>

definition user_content :: "jstring \<Rightarrow> jstring" where
  \<open>user_content s =
     ustr ''Analyze the following quote and return the JSON object. Quote: "'' @ s @ ustr ''"''\<close>

definition completion_request :: "jstring \<Rightarrow> chat_request" where
  "completion_request s =
     \<lparr>model = ustr ''gpt-4o'',
      messages =
        [\<lparr>role = ustr ''system'', content = system_content\<rparr>,
         \<lparr>role = ustr ''user'', content = user_content s\<rparr>],
      max_tokens = 200,
      temperature = 1 / 2,
      response_format = ustr ''json_object''\<rparr>"

text \<open>
  Lines 65 to 78: the strict parse, and when it throws, the parse of the text from the
  first opening brace to the last closing brace; the error of the first parse is thrown
  again when there is no such pair.
\<close>

definition parse_content :: "jstring \<Rightarrow> js_error + json" where
  "parse_content content' =
     (case JSON_parse content' of
        Some parsed \<Rightarrow> Inr parsed
      | None \<Rightarrow>
          (let firstBrace = indexOf content' (cu CHR ''{'');
               lastBrace = lastIndexOf content' (cu CHR ''}'')
           in if firstBrace \<ge> 0 \<and> lastBrace > firstBrace then
                (case JSON_parse (substring content' firstBrace (lastBrace + 1)) of
                   Some parsed \<Rightarrow> Inr parsed
                 | None \<Rightarrow> Inl SyntaxError)
              else Inl SyntaxError))"

text \<open>The body of the \<open>try\<close> block after the call, lines 59 to 78.\<close>

definition try_block :: "api_outcome \<Rightarrow> js_error + json" where
  "try_block outcome =
     (case outcome of
        Rejects \<Rightarrow> Inl ApiError
      | Resolves c \<Rightarrow>
          (case c of
             None \<Rightarrow> Inl EmptyResponse
           | Some content' \<Rightarrow>
               if content' = [] then Inl EmptyResponse else parse_content content'))"

text \<open>
  The messages are built before the \<open>try\<close> block (line 48), so the TypeError of the
  template literal leaves the function: the result is \<open>Inl\<close>. Every error of the
  \<open>try\<close> block is logged and answered with \<open>null\<close>.
\<close>

definition analyzeQuote ::
  "(rat \<Rightarrow> jstring) \<Rightarrow> 'st completion_api \<Rightarrow> json \<Rightarrow> 'st world
     \<Rightarrow> (js_error + json) \<times> 'st world" where
  "analyzeQuote numstr api quote w0 =
     (let w = w0\<lparr>analyzed := analyzed w0 @ [quote]\<rparr>
      in case ToString numstr quote of
           None \<Rightarrow> (Inl TypeError, w)
         | Some s \<Rightarrow>
             (let request = completion_request s;
                  (outcome, st) = api (api_state w) request;
                  w1 = w\<lparr>api_state := st, api_calls := api_calls w @ [request]\<rparr>
              in case try_block outcome of
                   Inl error \<Rightarrow> (Inr JNull, w1\<lparr>console := console w1 @ [error]\<rparr>)
                 | Inr parsed \<Rightarrow> (Inr parsed, w1)))"

section \<open>The handler of \<open>POST /api/analyze\<close>\<close>

text \<open>
  The handler answers with a status and a JSON body, or its promise rejects with an
  error nobody in this file catches.
\<close>

datatype http_outcome = Responded nat json | Unhandled js_error

text \<open>
  \<open>req.body\<close> is what \<open>express.json()\<close> delivers: in its default strict mode an
  object or an array, never \<open>null\<close> or another primitive. Reading the property
  \<open>quotes\<close> finds an own property of an object and nothing (\<open>undefined\<close>) anywhere
  else.
\<close>

fun property :: "json \<Rightarrow> jstring \<Rightarrow> json option" where
  "property (JObj ps) k = map_of ps k"
| "property v k = None"

fun isArray :: "json \<Rightarrow> bool" where
  "isArray (JArr xs) = True"
| "isArray v = False"

fun elements :: "json \<Rightarrow> json list" where
  "elements (JArr xs) = xs"
| "elements v = []"

definition slice :: "json list \<Rightarrow> nat \<Rightarrow> nat \<Rightarrow> json list" where
  "slice xs start end' = take (end' - start) (drop start xs)"

definition success_entry :: "json \<Rightarrow> json \<Rightarrow> json" where
  "success_entry quote analysis = JObj [(ustr ''quote'', quote), (ustr ''analysis'', analysis)]"

definition failure_entry :: "json \<Rightarrow> json" where
  "failure_entry quote =
     JObj [(ustr ''quote'', quote), (ustr ''error'', JStr (ustr ''Failed to analyze quote''))]"

definition bad_request :: http_outcome where
  "bad_request =
     Responded 400 (JObj [(ustr ''error'', JStr (ustr ''Please provide an array of quotes.''))])"

text \<open>The \<open>for\<close> loop of lines 94 to 101; an error of \<open>analyzeQuote\<close> ends it.\<close>

fun for_quotes ::
  "(rat \<Rightarrow> jstring) \<Rightarrow> 'st completion_api \<Rightarrow> json list \<Rightarrow> json list \<Rightarrow> 'st world
     \<Rightarrow> (js_error + json list) \<times> 'st world" where
  "for_quotes numstr api [] results w = (Inr results, w)"
| "for_quotes numstr api (quote # rest) results w =
     (case analyzeQuote numstr api quote w of
        (Inl e, w') \<Rightarrow> (Inl e, w')
      | (Inr analysis, w') \<Rightarrow>
          for_quotes numstr api rest
            (results @ [if truthy analysis then success_entry quote analysis
                        else failure_entry quote])
            w')"

definition handler ::
  "(rat \<Rightarrow> jstring) \<Rightarrow> 'st completion_api \<Rightarrow> json \<Rightarrow> 'st world
     \<Rightarrow> http_outcome \<times> 'st world" where
  "handler numstr api body w =
     (case property body (ustr ''quotes'') of
        None \<Rightarrow> (bad_request, w)
      | Some quotes \<Rightarrow>
          if \<not> truthy quotes \<or> \<not> isArray quotes \<or> length (elements quotes) = 0
          then (bad_request, w)
          else
            (let limitedQuotes = slice (elements quotes) 0 2
             in case for_quotes numstr api limitedQuotes [] w of
                  (Inl e, w') \<Rightarrow> (Unhandled e, w')
                | (Inr results, w') \<Rightarrow>
                    (Responded 200 (JObj [(ustr ''results'', JArr results)]), w')))"

section \<open>Stubs and requests for concrete runs\<close>

definition world0 :: "nat world" where
  "world0 = \<lparr>api_state = 0, api_calls = [], analyzed = [], console = []\<rparr>"

text \<open>Two stubs that count their calls: one rejects, one answers a fixed text.\<close>

definition rejecting_api :: "nat completion_api" where
  "rejecting_api s request = (Rejects, Suc s)"

definition replying_api :: "jstring \<Rightarrow> nat completion_api" where
  "replying_api text s request = (Resolves (Some text), Suc s)"

text \<open>
  \<open>Number::toString\<close> for the runs below: an integer is written with its digits in
  base ten and a minus sign when it is negative, as the runtime writes every integer
  of magnitude up to \<open>2 ^ 53\<close>. For a number that is not an integer this gives the
  digits of its integer part, which is not what the runtime writes; no run below has a
  number among its quotes.
\<close>

fun nat_digits :: "nat \<Rightarrow> jstring" where
  "nat_digits n =
     (if n < 10 then [cu CHR ''0'' + of_nat n]
      else nat_digits (n div 10) @ [cu CHR ''0'' + of_nat (n mod 10)])"

definition numstr0 :: "rat \<Rightarrow> jstring" where
  "numstr0 q = (if q < 0 then ustr ''-'' else []) @ nat_digits (nat \<lfloor>\<bar>q\<bar>\<rfloor>)"

definition quotes_body :: "json list \<Rightarrow> json" where
  "quotes_body qs = JObj [(ustr ''quotes'', JArr qs)]"

text \<open>The two response texts the specification names, and the values they denote.\<close>

definition love_loss_hope_text :: jstring where
  \<open>love_loss_hope_text = ustr ''{"sentiment":0.8,"intensity":0.6,"complexity":0.4,"agency":0.7,"themes":["love","loss","hope"]}''\<close>

definition love_loss_hope_analysis :: json where
  "love_loss_hope_analysis =
     JObj [(ustr ''sentiment'', JNum (8 / 10)), (ustr ''intensity'', JNum (6 / 10)),
           (ustr ''complexity'', JNum (4 / 10)), (ustr ''agency'', JNum (7 / 10)),
           (ustr ''themes'',
            JArr [JStr (ustr ''love''), JStr (ustr ''loss''), JStr (ustr ''hope'')])]"

definition commentary_text :: jstring where
  \<open>commentary_text = ustr ''Sure! {"sentiment":0.5,"intensity":0.5,"complexity":0.5,"agency":0.5,"themes":["a","b","c"]} Hope that helps!''\<close>

definition commentary_analysis :: json where
  "commentary_analysis =
     JObj [(ustr ''sentiment'', JNum (5 / 10)), (ustr ''intensity'', JNum (5 / 10)),
           (ustr ''complexity'', JNum (5 / 10)), (ustr ''agency'', JNum (5 / 10)),
           (ustr ''themes'', JArr [JStr (ustr ''a''), JStr (ustr ''b''), JStr (ustr ''c'')])]"

section \<open>Validation of the request\<close>

lemma of_char_nat_bound: "(of_char c :: nat) < 256"
proof -
  have "(of_char c :: nat) mod 256 < 256" by (rule mod_less_divisor) simp
  then show ?thesis by (simp only: of_char_mod_256)
qed

lemma unat_cu: "unat (cu c) = of_char c"
proof -
  have "(of_char c :: 16 word) = of_nat (of_char c)" by (simp only: of_nat_of_char)
  moreover have "(of_char c :: nat) < 65536"
    by (rule less_trans [OF of_char_nat_bound]) simp
  then have "(of_char c :: nat) < 2 ^ LENGTH(16)"
    by simp
  ultimately show ?thesis by (simp only: cu_def unat_of_nat mod_less)
qed

lemma cu_eq_iff [simp]: "cu x = cu y \<longleftrightarrow> x = y"
proof
  assume "cu x = cu y"
  then have "unat (cu x) = unat (cu y)" by simp
  then have "(of_char x :: nat) = of_char y" by (simp only: unat_cu)
  then show "x = y" by simp
qed simp

lemma ustr_eq_iff [simp]: "ustr a = ustr b \<longleftrightarrow> a = b"
proof -
  have "inj cu" by (simp add: inj_on_def)
  then show ?thesis by (simp add: ustr_def)
qed

text \<open>
  C1. When \<open>quotes\<close> is absent, is not an array, or is an empty array, the handler
  answers 400 with the fixed message, and the world is as before: no quote was handed
  to \<open>analyzeQuote\<close> and no request was sent to the API.
\<close>

theorem invalid_quotes_bad_request:
  assumes "property body (ustr ''quotes'') = None
           \<or> (\<exists>v. property body (ustr ''quotes'') = Some v \<and> \<not> isArray v)
           \<or> property body (ustr ''quotes'') = Some (JArr [])"
  shows "handler numstr api body w =
           (Responded 400
              (JObj [(ustr ''error'', JStr (ustr ''Please provide an array of quotes.''))]),
            w)"
  using assms by (auto simp: handler_def bad_request_def)

theorem invalid_quotes_bad_request_witness:
  "handler numstr0 rejecting_api (JObj []) world0 =
     (Responded 400
        (JObj [(ustr ''error'', JStr (ustr ''Please provide an array of quotes.''))]),
      world0)
   \<and> handler numstr0 rejecting_api (JObj [(ustr ''quotes'', JStr (ustr ''to be''))]) world0 =
     (Responded 400
        (JObj [(ustr ''error'', JStr (ustr ''Please provide an array of quotes.''))]),
      world0)
   \<and> handler numstr0 rejecting_api (quotes_body []) world0 =
     (Responded 400
        (JObj [(ustr ''error'', JStr (ustr ''Please provide an array of quotes.''))]),
      world0)"
proof (intro conjI)
  show "handler numstr0 rejecting_api (JObj []) world0 =
     (Responded 400
        (JObj [(ustr ''error'', JStr (ustr ''Please provide an array of quotes.''))]),
      world0)"
    by (rule invalid_quotes_bad_request) simp
  show "handler numstr0 rejecting_api (JObj [(ustr ''quotes'', JStr (ustr ''to be''))]) world0 =
     (Responded 400
        (JObj [(ustr ''error'', JStr (ustr ''Please provide an array of quotes.''))]),
      world0)"
    by (rule invalid_quotes_bad_request) simp
  show "handler numstr0 rejecting_api (quotes_body []) world0 =
     (Responded 400
        (JObj [(ustr ''error'', JStr (ustr ''Please provide an array of quotes.''))]),
      world0)"
    by (rule invalid_quotes_bad_request) (simp add: quotes_body_def)
qed

section \<open>One call of \<open>analyzeQuote\<close> and one turn of the loop\<close>

lemma analyzeQuote_unconvertible:
  "ToString numstr quote = None \<Longrightarrow>
   analyzeQuote numstr api quote w = (Inl TypeError, w\<lparr>analyzed := analyzed w @ [quote]\<rparr>)"
  by (simp add: analyzeQuote_def)

lemma analyzeQuote_convertible:
  assumes "ToString numstr quote = Some s"
  shows "fst (analyzeQuote numstr api quote w) =
           Inr (case try_block (fst (api (api_state w) (completion_request s))) of
                  Inl e \<Rightarrow> JNull | Inr v \<Rightarrow> v)"
    and "analyzed (snd (analyzeQuote numstr api quote w)) = analyzed w @ [quote]"
    and "api_calls (snd (analyzeQuote numstr api quote w)) = api_calls w @ [completion_request s]"
    and "api_state (snd (analyzeQuote numstr api quote w)) =
           snd (api (api_state w) (completion_request s))"
  using assms
  by (simp_all add: analyzeQuote_def Let_def split: prod.splits sum.splits)

lemma for_quotes_step:
  assumes "ToString numstr quote = Some s"
    and "try_block (fst (api (api_state w) (completion_request s))) = r"
  shows "for_quotes numstr api (quote # rest) results w =
           for_quotes numstr api rest
             (results @ [case r of
                           Inl e \<Rightarrow> failure_entry quote
                         | Inr v \<Rightarrow> if truthy v then success_entry quote v
                                    else failure_entry quote])
             (snd (analyzeQuote numstr api quote w))"
proof -
  obtain a w' where aq: "analyzeQuote numstr api quote w = (a, w')"
    by (cases "analyzeQuote numstr api quote w")
  from analyzeQuote_convertible(1) [OF assms(1), of api w] aq assms(2)
  have a: "a = Inr (case r of Inl e \<Rightarrow> JNull | Inr v \<Rightarrow> v)" by simp
  show ?thesis
    by (cases r) (simp_all add: aq a)
qed


section \<open>Facts about the parser and the brace extraction\<close>

text \<open>
  Every successful parse of a value consumes at least one code unit.
\<close>

lemma parse_int_part_shorter:
  "parse_int_part cs = Some (n, r) \<Longrightarrow> length r < length cs"
  by (auto simp: parse_int_part_def less_Suc_eq_le length_dropWhile_le
      split: list.splits if_splits)

lemma parse_fraction_shorter:
  "parse_fraction cs = Some (f, r) \<Longrightarrow> length r \<le> length cs"
  by (auto simp: parse_fraction_def Let_def le_SucI length_dropWhile_le
      split: list.splits if_splits)

lemma parse_exponent_shorter:
  "parse_exponent cs = Some (e, r) \<Longrightarrow> length r \<le> length cs"
  by (auto simp: parse_exponent_def Let_def le_SucI length_dropWhile_le
      split: list.splits if_splits prod.splits)

lemma parse_number_shorter:
  assumes "parse_number cs = Some (v, r)"
  shows "length r < length cs"
proof -
  define cs1 where "cs1 = (case cs of [] \<Rightarrow> cs
      | m # t \<Rightarrow> if m = cu CHR ''-'' then t else cs)"
  have l1: "length cs1 \<le> length cs"
    by (simp add: cs1_def split: list.splits)
  from assms obtain n cs2 f cs3 e where
    a: "parse_int_part cs1 = Some (n, cs2)" and
    b: "parse_fraction cs2 = Some (f, cs3)" and
    c: "parse_exponent cs3 = Some (e, r)"
    by (auto simp: parse_number_def cs1_def split: list.splits if_splits option.splits)
  from parse_int_part_shorter [OF a] parse_fraction_shorter [OF b]
    parse_exponent_shorter [OF c] l1
  show ?thesis by simp
qed

lemma parse_literal_shorter:
  assumes "parse_literal cs = Some (v, r)"
  shows "length r < length cs"
proof -
  have four: "take 4 cs = ustr s \<Longrightarrow> length s = 4 \<Longrightarrow> length (drop 4 cs) < length cs" for s
    by (cases cs) (auto simp: ustr_def)
  have five: "take 5 cs = ustr s \<Longrightarrow> length s = 5 \<Longrightarrow> length (drop 5 cs) < length cs" for s
    by (cases cs) (auto simp: ustr_def)
  from assms show ?thesis
    using four [of "''true''"] four [of "''null''"] five [of "''false''"]
    by (auto simp: parse_literal_def parse_number_shorter split: if_splits)
qed


lemma parse_shorter_upto:
  "length cs \<le> n \<Longrightarrow>
     (parse_value cs = Some (v, r) \<longrightarrow> length r < length cs)
   \<and> (parse_elements acc cs = Some (vs, r') \<longrightarrow> length r' < length cs)
   \<and> (parse_members acc' cs = Some (ms, r'') \<longrightarrow> length r'' < length cs)"
proof (induction n arbitrary: cs v r acc vs r' acc' ms r'')
  case 0
  then show ?case
    by (simp add: parse_value.simps parse_elements.simps parse_members.simps)
next
  case (Suc n)
  have IHe: "length r1 < length cs1"
    if "length cs1 \<le> n" "parse_elements acc1 cs1 = Some (vs1, r1)" for cs1 acc1 vs1 r1
    using Suc.IH [OF that(1)] that(2) by blast
  have IHm: "length r1 < length cs1"
    if "length cs1 \<le> n" "parse_members acc1 cs1 = Some (ms1, r1)" for cs1 acc1 ms1 r1
    using Suc.IH [OF that(1)] that(2) by blast
  have IHv: "length r1 < length cs1"
    if "length cs1 \<le> n" "parse_value cs1 = Some (v1, r1)" for cs1 v1 r1
    using Suc.IH [OF that(1)] that(2) by blast
  have val: "length r1 < length cs" if pv: "parse_value cs = Some (v1, r1)" for v1 r1
  proof -
    from pv obtain c t where cs: "cs = c # t"
      by (cases cs) (simp_all add: parse_value.simps)
    have tn: "length (skip_ws t) \<le> n"
      using Suc.prems cs length_skip_ws [of t] by simp
    have tl: "length (skip_ws t) < length cs"
      using cs length_skip_ws [of t] by simp
    consider (obj) "c = cu CHR ''{''"
      | (arr) "c \<noteq> cu CHR ''{''" "c = cu CHR ''[''"
      | (str) "c \<noteq> cu CHR ''{''" "c \<noteq> cu CHR ''[''" "c = cu (CHR 0x22)"
      | (lit) "c \<noteq> cu CHR ''{''" "c \<noteq> cu CHR ''[''" "c \<noteq> cu (CHR 0x22)"
      by blast
    then show ?thesis
    proof cases
      case obj
      from pv cs obj obtain d t' where sk: "skip_ws t = d # t'"
        by (subst (asm) parse_value.simps) (auto split: list.splits)
      show ?thesis
      proof (cases "d = cu CHR ''}''")
        case True
        with pv cs obj sk have "r1 = t'"
          by (subst (asm) parse_value.simps) simp
        with sk tl show ?thesis by simp
      next
        case False
        with pv cs obj sk obtain ms1 where "parse_members [] (skip_ws t) = Some (ms1, r1)"
          by (subst (asm) parse_value.simps) (auto split: option.splits)
        from IHm [OF tn this] tl show ?thesis by simp
      qed
    next
      case arr
      from pv cs arr obtain d t' where sk: "skip_ws t = d # t'"
        by (subst (asm) parse_value.simps) (auto split: list.splits)
      show ?thesis
      proof (cases "d = cu CHR '']''")
        case True
        with pv cs arr sk have "r1 = t'"
          by (subst (asm) parse_value.simps) simp
        with sk tl show ?thesis by simp
      next
        case False
        with pv cs arr sk obtain vs1 where "parse_elements [] (skip_ws t) = Some (vs1, r1)"
          by (subst (asm) parse_value.simps) (auto split: option.splits)
        from IHe [OF tn this] tl show ?thesis by simp
      qed
    next
      case str
      with pv cs obtain s1 where "parse_chars [] t = Some (s1, r1)"
        by (subst (asm) parse_value.simps) (auto split: option.splits)
      from parse_chars_shorter [OF this] cs show ?thesis by simp
    next
      case lit
      with pv cs have "parse_literal cs = Some (v1, r1)"
        by (subst (asm) parse_value.simps) simp
      then show ?thesis by (rule parse_literal_shorter)
    qed
  qed
  have elems: "length r1 < length cs"
    if pe: "parse_elements acc1 cs = Some (vs1, r1)" for acc1 vs1 r1
  proof -
    from pe obtain v1 rest where pv: "parse_value cs = Some (v1, rest)"
      by (subst (asm) parse_elements.simps) (auto split: option.splits)
    from val [OF pv] have rl: "length rest < length cs" .
    from pe pv obtain d t where sk: "skip_ws rest = d # t"
      by (subst (asm) parse_elements.simps) (auto split: list.splits)
    from skip_ws_Cons_shorter [OF sk] rl have tl: "length t < length cs" by simp
    show ?thesis
    proof (cases "d = cu CHR '',''")
      case True
      with pe pv sk tl have next_one: "parse_elements (acc1 @ [v1]) (skip_ws t) = Some (vs1, r1)"
        by (subst (asm) parse_elements.simps) simp
      have "length (skip_ws t) \<le> n"
        using tl Suc.prems length_skip_ws [of t] by simp
      from IHe [OF this next_one] tl length_skip_ws [of t] show ?thesis by simp
    next
      case False
      with pe pv sk have "r1 = t"
        by (subst (asm) parse_elements.simps) (simp split: if_splits)
      with tl show ?thesis by simp
    qed
  qed
  have membs: "length r1 < length cs"
    if pm: "parse_members acc1 cs = Some (ms1, r1)" for acc1 ms1 r1
  proof -
    from pm obtain t0 where cs: "cs = cu (CHR 0x22) # t0"
      by (subst (asm) parse_members.simps) (auto split: list.splits if_splits)
    from pm cs obtain k t1 where pc: "parse_chars [] t0 = Some (k, t1)"
      by (subst (asm) parse_members.simps) (auto split: option.splits)
    from parse_chars_shorter [OF pc] cs have l1: "length t1 < length cs" by simp
    from pm cs pc obtain col t2 where sk1: "skip_ws t1 = col # t2"
      by (subst (asm) parse_members.simps) (auto split: list.splits)
    from pm cs pc sk1 have col: "col = cu CHR '':''"
      by (subst (asm) parse_members.simps) (auto split: if_splits)
    from skip_ws_Cons_shorter [OF sk1] l1 have l2: "length t2 < length cs" by simp
    then have l2n: "length (skip_ws t2) \<le> n"
      using Suc.prems length_skip_ws [of t2] by simp
    from pm cs pc sk1 col obtain v1 rest where pv: "parse_value (skip_ws t2) = Some (v1, rest)"
      by (subst (asm) parse_members.simps) (auto split: option.splits)
    from IHv [OF l2n pv] l2 length_skip_ws [of t2] have rl: "length rest < length cs" by simp
    from pm cs pc sk1 col pv obtain d t where sk: "skip_ws rest = d # t"
      by (subst (asm) parse_members.simps) (auto split: list.splits)
    from skip_ws_Cons_shorter [OF sk] rl have tl: "length t < length cs" by simp
    show ?thesis
    proof (cases "d = cu CHR '',''")
      case True
      with pm cs pc sk1 col pv sk tl
      have next_one: "parse_members (put k v1 acc1) (skip_ws t) = Some (ms1, r1)"
        by (subst (asm) parse_members.simps) simp
      have "length (skip_ws t) \<le> n"
        using tl Suc.prems length_skip_ws [of t] by simp
      from IHm [OF this next_one] tl length_skip_ws [of t] show ?thesis by simp
    next
      case False
      with pm cs pc sk1 col pv sk have "r1 = t"
        by (subst (asm) parse_members.simps) (simp split: if_splits)
      with tl show ?thesis by simp
    qed
  qed
  from val elems membs show ?case by blast
qed

lemma parse_value_shorter: "parse_value cs = Some (v, r) \<Longrightarrow> length r < length cs"
  using parse_shorter_upto [of cs "length cs"] by blast


text \<open>
  So the comparisons of lengths in \<open>parse_elements\<close> and \<open>parse_members\<close> never fail:
  both functions are the plain recursive descent.
\<close>

lemma parse_elements_unfold:
  "parse_elements acc cs =
     (case parse_value cs of
        None \<Rightarrow> None
      | Some (v, rest) \<Rightarrow>
          (case skip_ws rest of
             [] \<Rightarrow> None
           | d # r \<Rightarrow>
               if d = cu CHR '','' then parse_elements (acc @ [v]) (skip_ws r)
               else if d = cu CHR '']'' then Some (acc @ [v], r)
               else None))"
proof (cases "parse_value cs")
  case None
  then show ?thesis by (subst parse_elements.simps) simp
next
  case (Some p)
  obtain v rest where p: "p = (v, rest)" by (cases p)
  show ?thesis
  proof (cases "skip_ws rest")
    case Nil
    with Some p show ?thesis by (subst parse_elements.simps) simp
  next
    case (Cons d r)
    from parse_value_shorter [of cs v rest] Some p skip_ws_Cons_shorter [OF Cons]
    have "length r < length cs" by simp
    with Some p Cons show ?thesis by (subst parse_elements.simps) simp
  qed
qed


lemma parse_value_skip_shorter:
  "parse_value (skip_ws t) = Some (v, rest) \<Longrightarrow> length rest < length t"
  using parse_value_shorter [of "skip_ws t" v rest] length_skip_ws [of t] by simp

lemma parse_members_unfold:
  "parse_members acc cs =
     (case cs of
        [] \<Rightarrow> None
      | q # r0 \<Rightarrow>
          if q \<noteq> cu (CHR 0x22) then None
          else
            (case parse_chars [] r0 of
               None \<Rightarrow> None
             | Some (k, r1) \<Rightarrow>
                 (case skip_ws r1 of
                    [] \<Rightarrow> None
                  | col # r2 \<Rightarrow>
                      if col \<noteq> cu CHR '':'' then None
                      else
                        (case parse_value (skip_ws r2) of
                           None \<Rightarrow> None
                         | Some (v, rest) \<Rightarrow>
                             (case skip_ws rest of
                                [] \<Rightarrow> None
                              | d # r \<Rightarrow>
                                  if d = cu CHR '','' then parse_members (put k v acc) (skip_ws r)
                                  else if d = cu CHR ''}'' then Some (put k v acc, r)
                                  else None)))))"
  by (subst parse_members.simps)
     (auto split: list.splits option.splits
        dest!: parse_chars_shorter skip_ws_Cons_shorter parse_value_skip_shorter)


lemma brace_not_ws: "\<not> is_ws (cu CHR ''{'')"
  by (simp add: is_ws_def cu_def)

lemma parse_value_brace_object:
  "parse_value (cu CHR ''{'' # cs) = Some (v, rest) \<Longrightarrow> \<exists>ms. v = JObj ms"
  by (subst (asm) parse_value.simps)
     (auto split: list.splits if_splits option.splits)

lemma JSON_parse_brace_object:
  assumes "JSON_parse (cu CHR ''{'' # cs) = Some v"
  shows "\<exists>ms. v = JObj ms"
proof -
  have "skip_ws (cu CHR ''{'' # cs) = cu CHR ''{'' # cs"
    by (simp add: skip_ws_def brace_not_ws)
  with assms obtain rest where "parse_value (cu CHR ''{'' # cs) = Some (v, rest)"
    by (auto simp: JSON_parse_def split: option.splits if_splits)
  then show ?thesis by (rule parse_value_brace_object)
qed

lemma indexOf_nth:
  "0 \<le> indexOf s c \<Longrightarrow> nat (indexOf s c) < length s \<and> s ! nat (indexOf s c) = c"
proof (induction s)
  case Nil
  then show ?case by simp
next
  case (Cons x xs)
  show ?case
  proof (cases "x = c")
    case True
    then show ?thesis by simp
  next
    case False
    with Cons.prems have nn: "0 \<le> indexOf xs c"
      by (simp add: Let_def split: if_splits)
    with Cons.IH have "nat (indexOf xs c) < length xs" "xs ! nat (indexOf xs c) = c"
      by simp_all
    with False nn show ?thesis
      by (simp add: Let_def nat_add_distrib)
  qed
qed

lemma lastIndexOf_bound: "lastIndexOf s c < int (length s)"
  by (induction s) (simp_all add: Let_def)

lemma substring_first:
  assumes "0 \<le> i" and "i < j" and "j < int (length s)"
  shows "\<exists>r. substring s i (j + 1) = s ! nat i # r"
proof -
  from assms have i: "nat i < length s" by simp
  have "substring s i (j + 1) = take (nat (j + 1 - i)) (drop (nat i) s)"
    using assms by (simp add: substring_def Let_def min_def max_def)
  also have "drop (nat i) s = s ! nat i # drop (Suc (nat i)) s"
    using i by (simp add: Cons_nth_drop_Suc)
  also have "nat (j + 1 - i) = Suc (nat (j - i))"
    using assms by simp
  finally show ?thesis by simp
qed

lemma extracted_starts_with_brace:
  assumes "0 \<le> indexOf text (cu CHR ''{'')"
    and "indexOf text (cu CHR ''{'') < lastIndexOf text (cu CHR ''}'')"
  shows "\<exists>r. substring text (indexOf text (cu CHR ''{'')) (lastIndexOf text (cu CHR ''}'') + 1)
              = cu CHR ''{'' # r"
  using substring_first [OF assms lastIndexOf_bound] indexOf_nth [OF assms(1)]
  by simp


lemma JSON_parse_Nil: "JSON_parse [] = None"
  by (simp add: JSON_parse_def skip_ws_def parse_value.simps)

lemma JSON_parse_love_loss_hope: "JSON_parse love_loss_hope_text = Some love_loss_hope_analysis"
  by code_simp

lemma commentary_strict_fails: "JSON_parse commentary_text = None"
  by code_simp

lemma commentary_first_brace: "indexOf commentary_text (cu CHR ''{'') = 6"
  by code_simp

lemma commentary_last_brace: "lastIndexOf commentary_text (cu CHR ''}'') = 91"
  by code_simp

lemma commentary_extracted:
  "JSON_parse (substring commentary_text 6 (91 + 1)) = Some commentary_analysis"
  by code_simp

lemma ToString_converts:
  "ToString numstr (JStr s) = Some s"
  "ToString numstr (JNum q) = Some (numstr q)"
  "ToString numstr (JBool b) \<noteq> None"
  "ToString numstr JNull = Some (ustr ''null'')"
  "ustr ''toString'' \<notin> set (map fst ps) \<Longrightarrow>
     ToString numstr (JObj ps) = Some (ustr ''[object Object]'')"
  by simp_all

lemma numstr0_quote: "ToString numstr0 (JStr s) = Some s"
  by simp

lemma numstr0_integers: "numstr0 3 = ustr ''3''" "numstr0 (- 12) = ustr ''-12''"
  by code_simp+

lemma replying_api_outcome:
  "fst (replying_api text st request) = Resolves (Some text)"
  by (simp add: replying_api_def)

lemma single_item_response:
  assumes "ToString numstr quote = Some s"
    and "try_block (fst (api (api_state w) (completion_request s))) = r"
  shows "fst (handler numstr api (quotes_body [quote]) w) =
           Responded 200
             (JObj [(ustr ''results'',
                     JArr [case r of
                             Inl e \<Rightarrow> failure_entry quote
                           | Inr v \<Rightarrow> if truthy v then success_entry quote v
                                      else failure_entry quote])])"
  using for_quotes_step [where api = api and w = w and rest = "[]" and results = "[]",
      OF assms]
  by (simp add: handler_def quotes_body_def slice_def)

lemma JSON_parse_one: "JSON_parse (ustr ''1'') = Some (JNum 1)"
  by code_simp

lemma JSON_parse_null: "JSON_parse (ustr ''null'') = Some JNull"
  by code_simp

lemma JSON_parse_mistyped:
  \<open>JSON_parse (ustr ''{"sentiment":"high"}'') = Some (JObj [(ustr ''sentiment'', JStr (ustr ''high''))])\<close>
  by code_simp

lemma JSON_parse_plain_words: "JSON_parse (ustr ''I cannot analyze this.'') = None"
  by code_simp

lemma plain_words_no_brace: "indexOf (ustr ''I cannot analyze this.'') (cu CHR ''{'') = - 1"
  by code_simp

lemma JSON_parse_braced_words: "JSON_parse (ustr ''{oops}'') = None"
  by code_simp

lemma braced_words_extracted:
  "JSON_parse (substring (ustr ''{oops}'')
     (indexOf (ustr ''{oops}'') (cu CHR ''{''))
     (lastIndexOf (ustr ''{oops}'') (cu CHR ''}'') + 1)) = None"
  by code_simp

section \<open>Results of single items\<close>

text \<open>
  C4. When the API returns the text
  \<open>{"sentiment":0.8,"intensity":0.6,"complexity":0.4,"agency":0.7,"themes":["love","loss","hope"]}\<close>
  for an item, the strict parse succeeds with the object of those five fields,
  \<open>analyzeQuote\<close> returns that object, and the turn of the loop appends the entry
  \<open>{ quote, analysis }\<close> with it to the results.
\<close>

theorem love_loss_hope_success:
  assumes "ToString numstr quote = Some s"
    and "fst (api (api_state w) (completion_request s)) = Resolves (Some love_loss_hope_text)"
  shows "JSON_parse love_loss_hope_text = Some love_loss_hope_analysis
         \<and> fst (analyzeQuote numstr api quote w) = Inr love_loss_hope_analysis
         \<and> for_quotes numstr api (quote # rest) results w =
             for_quotes numstr api rest
               (results @ [JObj [(ustr ''quote'', quote),
                                 (ustr ''analysis'', love_loss_hope_analysis)]])
               (snd (analyzeQuote numstr api quote w))"
proof -
  have ne: "love_loss_hope_text \<noteq> []"
    by (simp add: love_loss_hope_text_def ustr_def)
  have tb: "try_block (fst (api (api_state w) (completion_request s)))
              = Inr love_loss_hope_analysis"
    by (simp add: assms(2) try_block_def ne parse_content_def JSON_parse_love_loss_hope)
  have tr: "truthy love_loss_hope_analysis"
    by (simp add: love_loss_hope_analysis_def)
  show ?thesis
    using analyzeQuote_convertible(1) [OF assms(1), of api w]
      for_quotes_step [where api = api and w = w and rest = rest and results = results,
        OF assms(1) tb]
    by (simp add: tb tr JSON_parse_love_loss_hope success_entry_def)
qed

theorem love_loss_hope_success_witness:
  "fst (handler numstr0 (replying_api love_loss_hope_text)
          (quotes_body [JStr (ustr ''to be'')]) world0) =
     Responded 200
       (JObj [(ustr ''results'',
               JArr [JObj [(ustr ''quote'', JStr (ustr ''to be'')),
                           (ustr ''analysis'', love_loss_hope_analysis)]])])"
proof -
  note step = love_loss_hope_success
    [of numstr0 "JStr (ustr ''to be'')" "ustr ''to be''" "replying_api love_loss_hope_text"
        world0 "[]" "[]", OF numstr0_quote replying_api_outcome]
  then have "for_quotes numstr0 (replying_api love_loss_hope_text) [JStr (ustr ''to be'')] []
               world0 =
             (Inr [JObj [(ustr ''quote'', JStr (ustr ''to be'')),
                         (ustr ''analysis'', love_loss_hope_analysis)]],
              snd (analyzeQuote numstr0 (replying_api love_loss_hope_text)
                     (JStr (ustr ''to be'')) world0))"
    by simp
  then show ?thesis
    by (simp add: handler_def quotes_body_def slice_def)
qed

text \<open>
  C5. When the strict parse of the text fails, the text has a first opening brace at
  some index and a last closing brace at a later one, and the text from the one to the
  other (both included) is valid JSON, then that part is what \<open>analyzeQuote\<close> parses and
  returns: an object, so the item succeeds with it.
\<close>

theorem brace_extraction_recovers:
  assumes "ToString numstr quote = Some s"
    and "fst (api (api_state w) (completion_request s)) = Resolves (Some text)"
    and "JSON_parse text = None"
    and "0 \<le> indexOf text (cu CHR ''{'')"
    and "indexOf text (cu CHR ''{'') < lastIndexOf text (cu CHR ''}'')"
    and "JSON_parse (substring text (indexOf text (cu CHR ''{''))
                       (lastIndexOf text (cu CHR ''}'') + 1)) = Some v"
  shows "(\<exists>ms. v = JObj ms)
         \<and> fst (analyzeQuote numstr api quote w) = Inr v
         \<and> for_quotes numstr api (quote # rest) results w =
             for_quotes numstr api rest
               (results @ [JObj [(ustr ''quote'', quote), (ustr ''analysis'', v)]])
               (snd (analyzeQuote numstr api quote w))"
proof -
  from extracted_starts_with_brace [OF assms(4,5)] assms(6)
  obtain r where "JSON_parse (cu CHR ''{'' # r) = Some v" by auto
  then have obj: "\<exists>ms. v = JObj ms" by (rule JSON_parse_brace_object)
  then have tr: "truthy v" by auto
  from assms(4) have ne: "text \<noteq> []" by auto
  have tb: "try_block (fst (api (api_state w) (completion_request s))) = Inr v"
    using assms(3-6) by (simp add: assms(2) try_block_def ne parse_content_def)
  show ?thesis
    using analyzeQuote_convertible(1) [OF assms(1), of api w]
      for_quotes_step [where api = api and w = w and rest = rest and results = results,
        OF assms(1) tb] obj
    by (simp add: tb tr success_entry_def)
qed

theorem brace_extraction_recovers_witness:
  "fst (handler numstr0 (replying_api commentary_text)
          (quotes_body [JStr (ustr ''to be'')]) world0) =
     Responded 200
       (JObj [(ustr ''results'',
               JArr [JObj [(ustr ''quote'', JStr (ustr ''to be'')),
                           (ustr ''analysis'', commentary_analysis)]])])"
proof -
  have first: "0 \<le> indexOf commentary_text (cu CHR ''{'')"
    by (simp add: commentary_first_brace)
  have later: "indexOf commentary_text (cu CHR ''{'') < lastIndexOf commentary_text (cu CHR ''}'')"
    by (simp add: commentary_first_brace commentary_last_brace)
  have inner: "JSON_parse (substring commentary_text (indexOf commentary_text (cu CHR ''{''))
                 (lastIndexOf commentary_text (cu CHR ''}'') + 1)) = Some commentary_analysis"
    using commentary_extracted
    by (simp only: commentary_first_brace commentary_last_brace)
  note step = brace_extraction_recovers
    [of numstr0 "JStr (ustr ''to be'')" "ustr ''to be''" "replying_api commentary_text"
        world0 commentary_text commentary_analysis "[]" "[]",
     OF numstr0_quote replying_api_outcome commentary_strict_fails first later inner]
  then have "for_quotes numstr0 (replying_api commentary_text) [JStr (ustr ''to be'')] []
               world0 =
             (Inr [JObj [(ustr ''quote'', JStr (ustr ''to be'')),
                         (ustr ''analysis'', commentary_analysis)]],
              snd (analyzeQuote numstr0 (replying_api commentary_text)
                     (JStr (ustr ''to be'')) world0))"
    by simp
  then show ?thesis
    by (simp add: handler_def quotes_body_def slice_def)
qed

text \<open>
  C6, as amended. When the strict parse of the text fails, and the text has no opening
  brace before a later last closing brace, or the text from the one to the other is not
  valid JSON either, \<open>analyzeQuote\<close> returns \<open>null\<close> and the entry of the item is
  \<open>{ quote, error: "Failed to analyze quote" }\<close>.
\<close>

theorem unparsable_text_fails:
  assumes "ToString numstr quote = Some s"
    and "fst (api (api_state w) (completion_request s)) = Resolves (Some text)"
    and "JSON_parse text = None"
    and "indexOf text (cu CHR ''{'') < 0
         \<or> \<not> indexOf text (cu CHR ''{'') < lastIndexOf text (cu CHR ''}'')
         \<or> JSON_parse (substring text (indexOf text (cu CHR ''{''))
                          (lastIndexOf text (cu CHR ''}'') + 1)) = None"
  shows "fst (analyzeQuote numstr api quote w) = Inr JNull
         \<and> for_quotes numstr api (quote # rest) results w =
             for_quotes numstr api rest
               (results @ [JObj [(ustr ''quote'', quote),
                                 (ustr ''error'', JStr (ustr ''Failed to analyze quote''))]])
               (snd (analyzeQuote numstr api quote w))"
proof -
  have "parse_content text = Inl SyntaxError"
    using assms(3,4) by (auto simp: parse_content_def Let_def)
  then have "\<exists>e. try_block (fst (api (api_state w) (completion_request s))) = Inl e"
    by (simp add: assms(2) try_block_def)
  then obtain e where tb: "try_block (fst (api (api_state w) (completion_request s))) = Inl e"
    by blast
  show ?thesis
    using analyzeQuote_convertible(1) [OF assms(1), of api w]
      for_quotes_step [where api = api and w = w and rest = rest and results = results,
        OF assms(1) tb]
    by (simp add: tb failure_entry_def)
qed

theorem unparsable_text_fails_witness:
  "for_quotes numstr0 (replying_api (ustr ''I cannot analyze this.''))
     [JStr (ustr ''to be'')] [] world0 =
   (Inr [JObj [(ustr ''quote'', JStr (ustr ''to be'')),
               (ustr ''error'', JStr (ustr ''Failed to analyze quote''))]],
    snd (analyzeQuote numstr0 (replying_api (ustr ''I cannot analyze this.''))
           (JStr (ustr ''to be'')) world0))
   \<and> for_quotes numstr0 (replying_api (ustr ''{oops}''))
     [JStr (ustr ''to be'')] [] world0 =
   (Inr [JObj [(ustr ''quote'', JStr (ustr ''to be'')),
               (ustr ''error'', JStr (ustr ''Failed to analyze quote''))]],
    snd (analyzeQuote numstr0 (replying_api (ustr ''{oops}''))
           (JStr (ustr ''to be'')) world0))"
proof
  have no_pair: "indexOf (ustr ''I cannot analyze this.'') (cu CHR ''{'') < 0
      \<or> \<not> indexOf (ustr ''I cannot analyze this.'') (cu CHR ''{'')
            < lastIndexOf (ustr ''I cannot analyze this.'') (cu CHR ''}'')
      \<or> JSON_parse (substring (ustr ''I cannot analyze this.'')
             (indexOf (ustr ''I cannot analyze this.'') (cu CHR ''{''))
             (lastIndexOf (ustr ''I cannot analyze this.'') (cu CHR ''}'') + 1)) = None"
    by (simp add: plain_words_no_brace)
  show "for_quotes numstr0 (replying_api (ustr ''I cannot analyze this.''))
     [JStr (ustr ''to be'')] [] world0 =
   (Inr [JObj [(ustr ''quote'', JStr (ustr ''to be'')),
               (ustr ''error'', JStr (ustr ''Failed to analyze quote''))]],
    snd (analyzeQuote numstr0 (replying_api (ustr ''I cannot analyze this.''))
           (JStr (ustr ''to be'')) world0))"
    using unparsable_text_fails
      [of numstr0 "JStr (ustr ''to be'')" "ustr ''to be''"
          "replying_api (ustr ''I cannot analyze this.'')" world0
          "ustr ''I cannot analyze this.''" "[]" "[]",
       OF numstr0_quote replying_api_outcome JSON_parse_plain_words no_pair]
    by simp
  have still_not: "indexOf (ustr ''{oops}'') (cu CHR ''{'') < 0
      \<or> \<not> indexOf (ustr ''{oops}'') (cu CHR ''{'') < lastIndexOf (ustr ''{oops}'') (cu CHR ''}'')
      \<or> JSON_parse (substring (ustr ''{oops}'')
             (indexOf (ustr ''{oops}'') (cu CHR ''{''))
             (lastIndexOf (ustr ''{oops}'') (cu CHR ''}'') + 1)) = None"
    by (simp add: braced_words_extracted)
  show "for_quotes numstr0 (replying_api (ustr ''{oops}''))
     [JStr (ustr ''to be'')] [] world0 =
   (Inr [JObj [(ustr ''quote'', JStr (ustr ''to be'')),
               (ustr ''error'', JStr (ustr ''Failed to analyze quote''))]],
    snd (analyzeQuote numstr0 (replying_api (ustr ''{oops}''))
           (JStr (ustr ''to be'')) world0))"
    using unparsable_text_fails
      [of numstr0 "JStr (ustr ''to be'')" "ustr ''to be''"
          "replying_api (ustr ''{oops}'')" world0 "ustr ''{oops}''" "[]" "[]",
       OF numstr0_quote replying_api_outcome JSON_parse_braced_words still_not]
    by simp
qed

text \<open>
  C6 as stated fails: the text \<open>1\<close> has no brace at all, yet it is valid JSON as it
  stands, so the item succeeds with the analysis \<open>1\<close>.
\<close>

theorem braceless_text_succeeds:
  "indexOf (ustr ''1'') (cu CHR ''{'') = - 1
   \<and> fst (handler numstr0 (replying_api (ustr ''1'')) (quotes_body [JStr (ustr ''to be'')])
            world0) =
       Responded 200
         (JObj [(ustr ''results'',
                 JArr [JObj [(ustr ''quote'', JStr (ustr ''to be'')),
                             (ustr ''analysis'', JNum 1)]])])"
proof
  show "indexOf (ustr ''1'') (cu CHR ''{'') = - 1"
    by code_simp
  have nz: "\<not> rounds_to_zero 1"
    by (simp add: rounds_to_zero_def)
  have ne: "ustr ''1'' \<noteq> []"
    by (simp add: ustr_def)
  have "try_block (fst (replying_api (ustr ''1'') (api_state world0)
                          (completion_request (ustr ''to be'')))) = Inr (JNum 1)"
    by (simp add: replying_api_def try_block_def parse_content_def JSON_parse_one ne)
  from single_item_response
    [where api = "replying_api (ustr ''1'')" and w = world0, OF numstr0_quote this]
  show "fst (handler numstr0 (replying_api (ustr ''1'')) (quotes_body [JStr (ustr ''to be'')])
            world0) =
       Responded 200
         (JObj [(ustr ''results'',
                 JArr [JObj [(ustr ''quote'', JStr (ustr ''to be'')),
                             (ustr ''analysis'', JNum 1)]])])"
    by (simp add: nz success_entry_def)
qed

text \<open>
  C8, as amended. When the text parses, as it stands or after the brace extraction, to a
  value that is truthy (every object and every array is; \<open>null\<close>, \<open>false\<close>, a number
  stored as zero and the empty string are not), that value is returned and entered as
  \<open>{ quote, analysis }\<close> whatever its keys and their types: nothing validates it.
\<close>

theorem parsed_truthy_passes_unvalidated:
  assumes "ToString numstr quote = Some s"
    and "fst (api (api_state w) (completion_request s)) = Resolves (Some text)"
    and "JSON_parse text = Some v
         \<or> (JSON_parse text = None
            \<and> 0 \<le> indexOf text (cu CHR ''{'')
            \<and> indexOf text (cu CHR ''{'') < lastIndexOf text (cu CHR ''}'')
            \<and> JSON_parse (substring text (indexOf text (cu CHR ''{''))
                             (lastIndexOf text (cu CHR ''}'') + 1)) = Some v)"
    and "truthy v"
  shows "fst (analyzeQuote numstr api quote w) = Inr v
         \<and> for_quotes numstr api (quote # rest) results w =
             for_quotes numstr api rest
               (results @ [JObj [(ustr ''quote'', quote), (ustr ''analysis'', v)]])
               (snd (analyzeQuote numstr api quote w))"
proof -
  from assms(3) have ne: "text \<noteq> []"
    by (auto simp: JSON_parse_Nil)
  from assms(3) have "parse_content text = Inr v"
    by (auto simp: parse_content_def Let_def)
  then have tb: "try_block (fst (api (api_state w) (completion_request s))) = Inr v"
    by (simp add: assms(2) try_block_def ne)
  show ?thesis
    using analyzeQuote_convertible(1) [OF assms(1), of api w]
      for_quotes_step [where api = api and w = w and rest = rest and results = results,
        OF assms(1) tb]
    by (simp add: tb assms(4) success_entry_def)
qed

theorem parsed_truthy_passes_unvalidated_witness:
  \<open>for_quotes numstr0 (replying_api (ustr ''{"sentiment":"high"}''))
     [JStr (ustr ''to be'')] [] world0 =
   (Inr [JObj [(ustr ''quote'', JStr (ustr ''to be'')),
               (ustr ''analysis'', JObj [(ustr ''sentiment'', JStr (ustr ''high''))])]],
    snd (analyzeQuote numstr0 (replying_api (ustr ''{"sentiment":"high"}''))
           (JStr (ustr ''to be'')) world0))\<close>
proof -
  have tr: "truthy (JObj [(ustr ''sentiment'', JStr (ustr ''high''))])"
    by simp
  show ?thesis
    using parsed_truthy_passes_unvalidated
      [where rest = "[]" and results = "[]" and api = "replying_api x" and w = world0 for x,
       OF numstr0_quote replying_api_outcome disjI1 [OF JSON_parse_mistyped] tr]
    by simp
qed

text \<open>
  C8 as stated fails: the text \<open>null\<close> parses, to \<open>null\<close>, which is what \<open>analyzeQuote\<close>
  also returns for an error, and the entry of the item is the failure entry.
\<close>

theorem parsed_null_is_failure:
  "JSON_parse (ustr ''null'') = Some JNull
   \<and> fst (handler numstr0 (replying_api (ustr ''null'')) (quotes_body [JStr (ustr ''to be'')])
            world0) =
       Responded 200
         (JObj [(ustr ''results'',
                 JArr [JObj [(ustr ''quote'', JStr (ustr ''to be'')),
                             (ustr ''error'', JStr (ustr ''Failed to analyze quote''))]])])"
proof
  show "JSON_parse (ustr ''null'') = Some JNull"
    by (rule JSON_parse_null)
  have ne: "ustr ''null'' \<noteq> []"
    by (simp add: ustr_def)
  have "try_block (fst (replying_api (ustr ''null'') (api_state world0)
                          (completion_request (ustr ''to be'')))) = Inr JNull"
    by (simp add: replying_api_def try_block_def parse_content_def JSON_parse_null ne)
  from single_item_response
    [where api = "replying_api (ustr ''null'')" and w = world0, OF numstr0_quote this]
  show "fst (handler numstr0 (replying_api (ustr ''null'')) (quotes_body [JStr (ustr ''to be'')])
            world0) =
       Responded 200
         (JObj [(ustr ''results'',
                 JArr [JObj [(ustr ''quote'', JStr (ustr ''to be'')),
                             (ustr ''error'', JStr (ustr ''Failed to analyze quote''))]])])"
    by (simp add: failure_entry_def)
qed

section \<open>The whole loop and the response\<close>

lemma for_quotes_convertible:
  assumes "\<forall>q \<in> set qs. ToString numstr q \<noteq> None"
  shows "\<exists>es w'. for_quotes numstr api qs results w = (Inr (results @ es), w')
           \<and> length es = length qs
           \<and> (\<forall>i < length qs. es ! i = failure_entry (qs ! i)
                  \<or> (\<exists>a. truthy a \<and> es ! i = success_entry (qs ! i) a))
           \<and> analyzed w' = analyzed w @ qs
           \<and> api_calls w' =
               api_calls w @ map (\<lambda>q. completion_request (the (ToString numstr q))) qs"
  using assms
proof (induction qs arbitrary: results w)
  case Nil
  then show ?case by simp
next
  case (Cons q qs)
  from Cons.prems obtain s where s: "ToString numstr q = Some s" by auto
  define r where "r = try_block (fst (api (api_state w) (completion_request s)))"
  define e where "e = (case r of Inl _ \<Rightarrow> failure_entry q
                       | Inr v \<Rightarrow> if truthy v then success_entry q v else failure_entry q)"
  define w1 where "w1 = snd (analyzeQuote numstr api q w)"
  have step: "for_quotes numstr api (q # qs) results w =
                for_quotes numstr api qs (results @ [e]) w1"
    unfolding e_def w1_def
    by (rule for_quotes_step [OF s]) (simp add: r_def)
  have shape: "e = failure_entry q \<or> (\<exists>a. truthy a \<and> e = success_entry q a)"
    by (cases r) (auto simp: e_def)
  from Cons.prems have "\<forall>q \<in> set qs. ToString numstr q \<noteq> None" by simp
  from Cons.IH [OF this, of "results @ [e]" w1]
  obtain es w' where
    run: "for_quotes numstr api qs (results @ [e]) w1 = (Inr ((results @ [e]) @ es), w')"
    and len: "length es = length qs"
    and shapes: "\<forall>i < length qs. es ! i = failure_entry (qs ! i)
                  \<or> (\<exists>a. truthy a \<and> es ! i = success_entry (qs ! i) a)"
    and an: "analyzed w' = analyzed w1 @ qs"
    and calls: "api_calls w' =
                  api_calls w1 @ map (\<lambda>q. completion_request (the (ToString numstr q))) qs"
    by blast
  have an1: "analyzed w1 = analyzed w @ [q]"
    and calls1: "api_calls w1 = api_calls w @ [completion_request s]"
    unfolding w1_def by (simp_all add: analyzeQuote_convertible [OF s])
  have all_shapes: "\<forall>i < length (q # qs). (e # es) ! i = failure_entry ((q # qs) ! i)
                  \<or> (\<exists>a. truthy a \<and> (e # es) ! i = success_entry ((q # qs) ! i) a)"
  proof (intro allI impI)
    fix i assume "i < length (q # qs)"
    then show "(e # es) ! i = failure_entry ((q # qs) ! i)
                  \<or> (\<exists>a. truthy a \<and> (e # es) ! i = success_entry ((q # qs) ! i) a)"
      using shape shapes by (cases i) auto
  qed
  show ?case
  proof (intro exI conjI)
    show "for_quotes numstr api (q # qs) results w = (Inr (results @ (e # es)), w')"
      using step run by simp
    show "length (e # es) = length (q # qs)" using len by simp
    show "\<forall>i < length (q # qs). (e # es) ! i = failure_entry ((q # qs) ! i)
                  \<or> (\<exists>a. truthy a \<and> (e # es) ! i = success_entry ((q # qs) ! i) a)"
      by (rule all_shapes)
    show "analyzed w' = analyzed w @ q # qs" using an an1 by simp
    show "api_calls w' =
            api_calls w @ map (\<lambda>q. completion_request (the (ToString numstr q))) (q # qs)"
      using calls calls1 s by simp
  qed
qed

lemma for_quotes_unconvertible:
  assumes "\<exists>q \<in> set qs. ToString numstr q = None"
  shows "fst (for_quotes numstr api qs results w) = Inl TypeError"
  using assms
proof (induction qs arbitrary: results w)
  case Nil
  then show ?case by simp
next
  case (Cons q qs)
  show ?case
  proof (cases "ToString numstr q")
    case None
    then show ?thesis by (simp add: analyzeQuote_unconvertible)
  next
    case (Some s)
    with Cons.prems have later: "\<exists>q \<in> set qs. ToString numstr q = None" by auto
    show ?thesis
      by (subst for_quotes_step [OF Some refl]) (rule Cons.IH [OF later])
  qed
qed


lemma handler_nonempty:
  assumes "property body (ustr ''quotes'') = Some (JArr qs)" and "qs \<noteq> []"
  shows "handler numstr api body w =
           (case for_quotes numstr api (take 2 qs) [] w of
              (Inl e, w') \<Rightarrow> (Unhandled e, w')
            | (Inr results, w') \<Rightarrow>
                (Responded 200 (JObj [(ustr ''results'', JArr results)]), w'))"
  using assms by (simp add: handler_def slice_def)

lemma handler_convertible:
  assumes "property body (ustr ''quotes'') = Some (JArr qs)" and "qs \<noteq> []"
    and "\<forall>q \<in> set (take 2 qs). ToString numstr q \<noteq> None"
  shows "\<exists>rs w'. handler numstr api body w =
             (Responded 200 (JObj [(ustr ''results'', JArr rs)]), w')
           \<and> length rs = min (length qs) 2
           \<and> (\<forall>i < min (length qs) 2. rs ! i = failure_entry (qs ! i)
                  \<or> (\<exists>a. truthy a \<and> rs ! i = success_entry (qs ! i) a))
           \<and> analyzed w' = analyzed w @ take 2 qs
           \<and> api_calls w' =
               api_calls w @ map (\<lambda>q. completion_request (the (ToString numstr q))) (take 2 qs)"
proof -
  from for_quotes_convertible [OF assms(3), of api "[]" w]
  obtain es w' where
    run: "for_quotes numstr api (take 2 qs) [] w = (Inr es, w')"
    and len: "length es = length (take 2 qs)"
    and shapes: "\<forall>i < length (take 2 qs). es ! i = failure_entry (take 2 qs ! i)
                  \<or> (\<exists>a. truthy a \<and> es ! i = success_entry (take 2 qs ! i) a)"
    and an: "analyzed w' = analyzed w @ take 2 qs"
    and calls: "api_calls w' =
        api_calls w @ map (\<lambda>q. completion_request (the (ToString numstr q))) (take 2 qs)"
    by auto
  show ?thesis
  proof (intro exI conjI)
    show "handler numstr api body w = (Responded 200 (JObj [(ustr ''results'', JArr es)]), w')"
      by (simp add: handler_nonempty [OF assms(1,2)] run)
    show "length es = min (length qs) 2" using len by simp
    show "\<forall>i < min (length qs) 2. es ! i = failure_entry (qs ! i)
                  \<or> (\<exists>a. truthy a \<and> es ! i = success_entry (qs ! i) a)"
      using shapes by simp
    show "analyzed w' = analyzed w @ take 2 qs" by (rule an)
    show "api_calls w' =
        api_calls w @ map (\<lambda>q. completion_request (the (ToString numstr q))) (take 2 qs)"
      by (rule calls)
  qed
qed

lemma handler_unconvertible:
  assumes "property body (ustr ''quotes'') = Some (JArr qs)" and "qs \<noteq> []"
    and "\<exists>q \<in> set (take 2 qs). ToString numstr q = None"
  shows "fst (handler numstr api body w) = Unhandled TypeError"
proof -
  obtain r w' where run: "for_quotes numstr api (take 2 qs) [] w = (r, w')"
    by (cases "for_quotes numstr api (take 2 qs) [] w")
  with for_quotes_unconvertible [OF assms(3), of api "[]" w] have "r = Inl TypeError"
    by simp
  with run show ?thesis
    by (simp add: handler_nonempty [OF assms(1,2)])
qed

lemma entry_quote:
  "property (failure_entry q) (ustr ''quote'') = Some q"
  "property (success_entry q a) (ustr ''quote'') = Some q"
  by (simp_all add: failure_entry_def success_entry_def)

text \<open>
  Whatever the elements are, at most the first two are handed to \<open>analyzeQuote\<close>, in
  their order, and the elements after the second never are.
\<close>

lemma analyzeQuote_analyzed:
  "analyzed (snd (analyzeQuote numstr api q w)) = analyzed w @ [q]"
  by (cases "ToString numstr q")
     (simp_all add: analyzeQuote_unconvertible analyzeQuote_convertible)

lemma for_quotes_analyzed:
  "\<exists>k \<le> length qs. analyzed (snd (for_quotes numstr api qs results w)) = analyzed w @ take k qs"
proof (induction qs arbitrary: results w)
  case Nil
  show ?case by simp
next
  case (Cons q qs)
  obtain a w1 where r: "analyzeQuote numstr api q w = (a, w1)"
    by (cases "analyzeQuote numstr api q w")
  with analyzeQuote_analyzed [of numstr api q w] have w1: "analyzed w1 = analyzed w @ [q]"
    by simp
  show ?case
  proof (cases a)
    case (Inl e)
    with r w1 have "analyzed (snd (for_quotes numstr api (q # qs) results w))
        = analyzed w @ take 1 (q # qs)" by simp
    then show ?thesis by (intro exI [of _ 1]) simp
  next
    case (Inr analysis)
    define e where "e = (if truthy analysis then success_entry q analysis else failure_entry q)"
    from Cons.IH [of "results @ [e]" w1] obtain k where
      k: "k \<le> length qs"
        "analyzed (snd (for_quotes numstr api qs (results @ [e]) w1)) = analyzed w1 @ take k qs"
      by blast
    with r Inr w1 have "analyzed (snd (for_quotes numstr api (q # qs) results w))
        = analyzed w @ take (Suc k) (q # qs)" by (simp add: e_def)
    with k(1) show ?thesis by (intro exI [of _ "Suc k"]) simp
  qed
qed

lemma at_most_two_analyzed:
  assumes "property body (ustr ''quotes'') = Some (JArr qs)" and "qs \<noteq> []"
  shows "\<exists>k \<le> 2. analyzed (snd (handler numstr api body w)) = analyzed w @ take k qs"
proof -
  from for_quotes_analyzed [of "take 2 qs" numstr api "[]" w] obtain k where
    k: "k \<le> length (take 2 qs)"
      "analyzed (snd (for_quotes numstr api (take 2 qs) [] w)) = analyzed w @ take k (take 2 qs)"
    by blast
  obtain r w' where run: "for_quotes numstr api (take 2 qs) [] w = (r, w')"
    by (cases "for_quotes numstr api (take 2 qs) [] w")
  have same: "snd (handler numstr api body w) = w'"
    by (cases r) (simp_all add: handler_nonempty [OF assms] run)
  from k(1) have k2: "k \<le> 2" by simp
  then have "take k (take 2 qs) = take k qs" by (simp add: min_absorb1)
  with k(2) run same have "analyzed (snd (handler numstr api body w)) = analyzed w @ take k qs"
    by simp
  with k2 show ?thesis by blast
qed

text \<open>
  When \<open>ToString\<close> converts both of the first two elements (as it does every string),
  exactly these are handed to \<open>analyzeQuote\<close>, one request is sent to the API for each,
  and the response is 200 with as many results.
\<close>

lemma convertible_quotes_capped_at_two:
  assumes "property body (ustr ''quotes'') = Some (JArr qs)" and "qs \<noteq> []"
    and "\<forall>q \<in> set (take 2 qs). ToString numstr q \<noteq> None"
  shows "\<exists>rs w'. handler numstr api body w =
             (Responded 200 (JObj [(ustr ''results'', JArr rs)]), w')
           \<and> length rs = min (length qs) 2
           \<and> analyzed w' = analyzed w @ take 2 qs
           \<and> length (api_calls w') = length (api_calls w) + min (length qs) 2"
proof -
  from handler_convertible [OF assms, of api w]
  obtain rs w' where
    "handler numstr api body w = (Responded 200 (JObj [(ustr ''results'', JArr rs)]), w')"
    and "length rs = min (length qs) 2"
    and "analyzed w' = analyzed w @ take 2 qs"
    and "api_calls w' =
        api_calls w @ map (\<lambda>q. completion_request (the (ToString numstr q))) (take 2 qs)"
    by blast
  then show ?thesis by auto
qed

text \<open>
  C2 says that for every request with a non-empty array of N quotes exactly min(N, 2)
  items are processed and the results have that length. The code breaks it on the
  request below: of two quotes the first is an object with an own property
  \<open>toString\<close>. Converting it throws in line 48, before the \<open>try\<close> block; one element
  has been handed to \<open>analyzeQuote\<close>, not two, no request is sent, and the handler
  ends without a response.
\<close>

theorem unconvertible_first_quote_no_response:
  "handler numstr0 (replying_api love_loss_hope_text)
     (quotes_body [JObj [(ustr ''toString'', JNum 1)], JStr (ustr ''to be'')]) world0 =
   (Unhandled TypeError,
    \<lparr>api_state = 0, api_calls = [],
       analyzed = [JObj [(ustr ''toString'', JNum 1)]], console = []\<rparr>)"
  by (simp add: handler_def quotes_body_def slice_def analyzeQuote_def world0_def)

theorem unconvertible_first_quote_no_response_witness:
  "fst (handler numstr0 (replying_api love_loss_hope_text)
          (quotes_body [JObj [(ustr ''toString'', JNum 1)], JStr (ustr ''to be'')]) world0) =
     Unhandled TypeError
   \<and> length (analyzed (snd (handler numstr0 (replying_api love_loss_hope_text)
          (quotes_body [JObj [(ustr ''toString'', JNum 1)], JStr (ustr ''to be'')]) world0))) = 1"
  by (simp add: unconvertible_first_quote_no_response)

text \<open>
  Whenever the handler responds to a request with a non-empty array, it responds 200
  with one entry for each of the first two quotes, in their order, each entry of the
  success or of the failure shape and carrying its quote as it came. It does not respond
  only when the conversion to a string throws for one of the first two quotes.
\<close>

lemma results_echo_quotes_in_order:
  assumes "property body (ustr ''quotes'') = Some (JArr qs)" and "qs \<noteq> []"
  shows "case fst (handler numstr api body w) of
           Responded status b \<Rightarrow>
             status = 200
             \<and> (\<exists>rs. b = JObj [(ustr ''results'', JArr rs)]
                  \<and> length rs = min (length qs) 2
                  \<and> (\<forall>i < min (length qs) 2.
                        property (rs ! i) (ustr ''quote'') = Some (qs ! i)
                        \<and> (rs ! i = JObj [(ustr ''quote'', qs ! i),
                                          (ustr ''error'', JStr (ustr ''Failed to analyze quote''))]
                           \<or> (\<exists>a. rs ! i = JObj [(ustr ''quote'', qs ! i),
                                                  (ustr ''analysis'', a)]))))
         | Unhandled e \<Rightarrow>
             e = TypeError \<and> (\<exists>q \<in> set (take 2 qs). ToString numstr q = None)"
proof (cases "\<exists>q \<in> set (take 2 qs). ToString numstr q = None")
  case True
  with handler_unconvertible [OF assms True, of api w] show ?thesis by simp
next
  case False
  then have conv: "\<forall>q \<in> set (take 2 qs). ToString numstr q \<noteq> None" by simp
  from handler_convertible [OF assms conv, of api w]
  obtain rs w' where
    resp: "handler numstr api body w = (Responded 200 (JObj [(ustr ''results'', JArr rs)]), w')"
    and len: "length rs = min (length qs) 2"
    and shapes: "\<forall>i < min (length qs) 2. rs ! i = failure_entry (qs ! i)
                  \<or> (\<exists>a. truthy a \<and> rs ! i = success_entry (qs ! i) a)"
    by blast
  have "\<forall>i < min (length qs) 2.
          property (rs ! i) (ustr ''quote'') = Some (qs ! i)
          \<and> (rs ! i = JObj [(ustr ''quote'', qs ! i),
                            (ustr ''error'', JStr (ustr ''Failed to analyze quote''))]
             \<or> (\<exists>a. rs ! i = JObj [(ustr ''quote'', qs ! i), (ustr ''analysis'', a)]))"
  proof (intro allI impI)
    fix i assume "i < min (length qs) 2"
    with shapes have "rs ! i = failure_entry (qs ! i)
        \<or> (\<exists>a. truthy a \<and> rs ! i = success_entry (qs ! i) a)" by blast
    then show "property (rs ! i) (ustr ''quote'') = Some (qs ! i)
          \<and> (rs ! i = JObj [(ustr ''quote'', qs ! i),
                            (ustr ''error'', JStr (ustr ''Failed to analyze quote''))]
             \<or> (\<exists>a. rs ! i = JObj [(ustr ''quote'', qs ! i), (ustr ''analysis'', a)]))"
      by (auto simp: entry_quote) (auto simp: failure_entry_def success_entry_def)
  qed
  with resp len show ?thesis by simp
qed


text \<open>
  C3 says that for every request with a non-empty array, \<open>results[i].quote\<close> equals
  \<open>quotes[i]\<close> for every index below min(N, 2). The code breaks it on the request below:
  the only quote is an object with an own property \<open>toString\<close>; converting it throws in
  line 48, before the \<open>try\<close> block, and the handler ends without a response, so there
  is no \<open>results[0]\<close> to carry the quote.
\<close>

theorem unconvertible_only_quote_no_results:
  "handler numstr0 (replying_api commentary_text)
     (quotes_body [JObj [(ustr ''toString'', JNum 1)]]) world0 =
   (Unhandled TypeError,
    \<lparr>api_state = 0, api_calls = [],
       analyzed = [JObj [(ustr ''toString'', JNum 1)]], console = []\<rparr>)"
  by (simp add: handler_def quotes_body_def slice_def analyzeQuote_def world0_def)

theorem unconvertible_only_quote_no_results_witness:
  "\<not> (\<exists>rs. fst (handler numstr0 (replying_api commentary_text)
                   (quotes_body [JObj [(ustr ''toString'', JNum 1)]]) world0) =
               Responded 200 (JObj [(ustr ''results'', JArr rs)])
             \<and> property (rs ! 0) (ustr ''quote'') = Some (JObj [(ustr ''toString'', JNum 1)]))"
  by (simp add: unconvertible_only_quote_no_results)

section \<open>Errors of the API call\<close>

text \<open>
  An API call that throws, or resolves without content, is caught inside \<open>analyzeQuote\<close>:
  the result is \<open>null\<close>, the error is logged, and the loop goes on with the failure
  entry for the item.
\<close>

lemma api_failure_fails_item:
  assumes "ToString numstr quote = Some s"
    and "fst (api (api_state w) (completion_request s)) = Rejects
         \<or> fst (api (api_state w) (completion_request s)) = Resolves None
         \<or> fst (api (api_state w) (completion_request s)) = Resolves (Some [])"
  shows "fst (analyzeQuote numstr api quote w) = Inr JNull
         \<and> for_quotes numstr api (quote # rest) results w =
             for_quotes numstr api rest
               (results @ [JObj [(ustr ''quote'', quote),
                                 (ustr ''error'', JStr (ustr ''Failed to analyze quote''))]])
               (snd (analyzeQuote numstr api quote w))"
proof -
  from assms(2) have "\<exists>e. try_block (fst (api (api_state w) (completion_request s))) = Inl e"
    by (auto simp: try_block_def)
  then obtain e where tb: "try_block (fst (api (api_state w) (completion_request s))) = Inl e"
    by blast
  show ?thesis
    using analyzeQuote_convertible(1) [OF assms(1), of api w]
      for_quotes_step [where api = api and w = w and rest = rest and results = results,
        OF assms(1) tb]
    by (simp add: tb failure_entry_def)
qed

text \<open>
  C7 says that when the API call of an item fails, the item gets the failure entry, the
  response is still 200 and no error of the analysis reaches the HTTP layer. The code
  breaks it on the request below: the API call for the first quote rejects and is caught
  (the error is logged), but converting the second quote, an object with an own property
  \<open>toString\<close>, throws in line 48, before the \<open>try\<close> block. The error leaves
  \<open>analyzeQuote\<close> and the handler, and no response is sent.
\<close>

theorem unconvertible_quote_escapes_handler:
  "handler numstr0 rejecting_api
     (quotes_body [JStr (ustr ''to be''), JObj [(ustr ''toString'', JNum 1)]]) world0 =
   (Unhandled TypeError,
    \<lparr>api_state = 1, api_calls = [completion_request (ustr ''to be'')],
       analyzed = [JStr (ustr ''to be''), JObj [(ustr ''toString'', JNum 1)]],
       console = [ApiError]\<rparr>)"
  by (simp add: handler_def quotes_body_def slice_def analyzeQuote_def rejecting_api_def
      try_block_def world0_def)

theorem unconvertible_quote_escapes_handler_witness:
  "fst (handler numstr0 rejecting_api
          (quotes_body [JStr (ustr ''to be''), JObj [(ustr ''toString'', JNum 1)]]) world0) =
     Unhandled TypeError
   \<and> console (snd (handler numstr0 rejecting_api
          (quotes_body [JStr (ustr ''to be''), JObj [(ustr ''toString'', JNum 1)]]) world0)) =
     [ApiError]"
  by (simp add: unconvertible_quote_escapes_handler)

section \<open>Quotes that are not strings\<close>

text \<open>
  No element of the array is checked for its type. When \<open>ToString\<close> converts both of the
  first two elements (it converts every string, number, boolean and \<open>null\<close>, every
  object without an own property \<open>toString\<close>, every array of such values), each is
  handed to \<open>analyzeQuote\<close>, its string stands in the user message of the request sent
  to the API, and the entry of the results carries the element itself as \<open>quote\<close>.
\<close>

lemma convertible_quotes_pass_unchecked:
  assumes "property body (ustr ''quotes'') = Some (JArr qs)" and "qs \<noteq> []"
    and "\<forall>q \<in> set (take 2 qs). ToString numstr q \<noteq> None"
  shows "\<exists>rs w'. handler numstr api body w =
             (Responded 200 (JObj [(ustr ''results'', JArr rs)]), w')
           \<and> analyzed w' = analyzed w @ take 2 qs
           \<and> map (\<lambda>request. map content (messages request)) (drop (length (api_calls w)) (api_calls w')) =
               map (\<lambda>q. [system_content, user_content (the (ToString numstr q))]) (take 2 qs)
           \<and> map (\<lambda>entry. property entry (ustr ''quote'')) rs = map Some (take 2 qs)"
proof -
  from handler_convertible [OF assms, of api w]
  obtain rs w' where
    resp: "handler numstr api body w = (Responded 200 (JObj [(ustr ''results'', JArr rs)]), w')"
    and len: "length rs = min (length qs) 2"
    and shapes: "\<forall>i < min (length qs) 2. rs ! i = failure_entry (qs ! i)
                  \<or> (\<exists>a. truthy a \<and> rs ! i = success_entry (qs ! i) a)"
    and an: "analyzed w' = analyzed w @ take 2 qs"
    and calls: "api_calls w' =
        api_calls w @ map (\<lambda>q. completion_request (the (ToString numstr q))) (take 2 qs)"
    by blast
  have echo: "map (\<lambda>entry. property entry (ustr ''quote'')) rs = map Some (take 2 qs)"
  proof (rule nth_equalityI)
    show "length (map (\<lambda>entry. property entry (ustr ''quote'')) rs) = length (map Some (take 2 qs))"
      using len by simp
    fix i assume "i < length (map (\<lambda>entry. property entry (ustr ''quote'')) rs)"
    then have i: "i < min (length qs) 2" using len by simp
    with shapes have "property (rs ! i) (ustr ''quote'') = Some (qs ! i)"
      by (auto simp: entry_quote)
    with i len show "map (\<lambda>entry. property entry (ustr ''quote'')) rs ! i = map Some (take 2 qs) ! i"
      by simp
  qed
  have msgs: "map (\<lambda>request. map content (messages request)) (drop (length (api_calls w)) (api_calls w')) =
               map (\<lambda>q. [system_content, user_content (the (ToString numstr q))]) (take 2 qs)"
    by (simp add: calls completion_request_def comp_def)
  from resp an msgs echo show ?thesis by blast
qed

text \<open>
  C10 says that each of the first two elements, of any JSON type, is passed to
  \<open>analyzeQuote\<close>, coerced to a string in the user message, and echoed back as
  \<open>results[i].quote\<close>. The code breaks it on the request below: the quote is an array
  holding an object with an own property \<open>toString\<close>. It is handed to \<open>analyzeQuote\<close>,
  but converting it throws in line 48, before the \<open>try\<close> block; no request is sent,
  and the handler ends without a response, so nothing is echoed.
\<close>

theorem unconvertible_quote_not_echoed:
  "handler numstr0 (replying_api love_loss_hope_text)
     (quotes_body [JArr [JObj [(ustr ''toString'', JBool True)]]]) world0 =
   (Unhandled TypeError,
    \<lparr>api_state = 0, api_calls = [],
       analyzed = [JArr [JObj [(ustr ''toString'', JBool True)]]], console = []\<rparr>)"
  by (simp add: handler_def quotes_body_def slice_def analyzeQuote_def world0_def)

theorem unconvertible_quote_not_echoed_witness:
  "fst (handler numstr0 (replying_api love_loss_hope_text)
          (quotes_body [JArr [JObj [(ustr ''toString'', JBool True)]]]) world0) =
     Unhandled TypeError
   \<and> api_calls (snd (handler numstr0 (replying_api love_loss_hope_text)
          (quotes_body [JArr [JObj [(ustr ''toString'', JBool True)]]]) world0)) = []"
  by (simp add: unconvertible_quote_not_echoed)

section \<open>Determinism\<close>

lemma analyzeQuote_deterministic:
  assumes "deterministic_stub api"
  shows "fst (analyzeQuote numstr api q w1) = fst (analyzeQuote numstr api q w2)"
proof (cases "ToString numstr q")
  case None
  then show ?thesis by (simp add: analyzeQuote_unconvertible)
next
  case (Some s)
  from assms have "fst (api (api_state w1) (completion_request s))
                     = fst (api (api_state w2) (completion_request s))"
    unfolding deterministic_stub_def by blast
  then show ?thesis
    by (simp add: analyzeQuote_convertible(1) [OF Some])
qed

lemma for_quotes_deterministic:
  assumes "deterministic_stub api"
  shows "fst (for_quotes numstr api qs results w1) = fst (for_quotes numstr api qs results w2)"
proof (induction qs arbitrary: results w1 w2)
  case Nil
  show ?case by simp
next
  case (Cons q qs)
  obtain a1 v1 where r1: "analyzeQuote numstr api q w1 = (a1, v1)"
    by (cases "analyzeQuote numstr api q w1")
  obtain a2 v2 where r2: "analyzeQuote numstr api q w2 = (a2, v2)"
    by (cases "analyzeQuote numstr api q w2")
  from analyzeQuote_deterministic [OF assms, of numstr q w1 w2] r1 r2
  have same: "a1 = a2" by simp
  show ?case
  proof (cases a2)
    case (Inl e)
    with same r1 r2 show ?thesis by simp
  next
    case (Inr analysis)
    with same r1 r2 Cons.IH show ?thesis by simp
  qed
qed

text \<open>
  C9. With a deterministic stub for the API, what the handler answers (the response with
  its results, or the error it ends with) is the same in any two runs on the same body,
  whatever state the API and the logs are in when each run starts.
\<close>

theorem handler_deterministic:
  assumes "deterministic_stub api"
  shows "fst (handler numstr api body w1) = fst (handler numstr api body w2)"
proof (cases "property body (ustr ''quotes'')")
  case None
  then show ?thesis by (simp add: handler_def)
next
  case (Some quotes)
  show ?thesis
  proof (cases "\<not> truthy quotes \<or> \<not> isArray quotes \<or> length (elements quotes) = 0")
    case True
    with Some show ?thesis by (simp add: handler_def)
  next
    case False
    obtain r1 v1 where r1: "for_quotes numstr api (slice (elements quotes) 0 2) [] w1 = (r1, v1)"
      by (cases "for_quotes numstr api (slice (elements quotes) 0 2) [] w1")
    obtain r2 v2 where r2: "for_quotes numstr api (slice (elements quotes) 0 2) [] w2 = (r2, v2)"
      by (cases "for_quotes numstr api (slice (elements quotes) 0 2) [] w2")
    from for_quotes_deterministic [OF assms, of numstr "slice (elements quotes) 0 2" "[]" w1 w2]
      r1 r2
    have "r1 = r2" by simp
    with Some False r1 r2 show ?thesis
      by (cases r2) (simp_all add: handler_def)
  qed
qed

lemma replying_api_deterministic: "deterministic_stub (replying_api text)"
  by (simp add: deterministic_stub_def replying_api_def)

theorem handler_deterministic_witness:
  "fst (handler numstr0 (replying_api commentary_text)
          (quotes_body [JStr (ustr ''to be''), JStr (ustr ''or not'')]) world0) =
   fst (handler numstr0 (replying_api commentary_text)
          (quotes_body [JStr (ustr ''to be''), JStr (ustr ''or not'')])
          \<lparr>api_state = 41, api_calls = [completion_request (ustr ''earlier'')],
             analyzed = [JStr (ustr ''earlier'')], console = [ApiError]\<rparr>)"
  by (rule handler_deterministic [OF replying_api_deterministic])


end
